theory Spec2Isabelle
  imports Main "HOL-Library.Word"
begin

section \<open>Wire data, errors and the protocol collaborator\<close>

text \<open>
  The proxy's two source files, \<^verbatim>\<open>proxy/proxy.go\<close> and \<^verbatim>\<open>connect/connect.go\<close>, are
  embedded function by function. Bytes are 8-bit words, Go's \<^verbatim>\<open>int32\<close> is a 32-bit word
  read with \<open>sint\<close>, Go's \<^verbatim>\<open>int\<close> (64 bit; every value below stays under \<open>2^33\<close>) is
  \<open>int\<close>. An \<^verbatim>\<open>error\<close> is \<open>error option\<close>, \<open>None\<close> being \<^verbatim>\<open>nil\<close>; the code only ever
  compares an error with \<^verbatim>\<open>nil\<close> and with \<^verbatim>\<open>io.EOF\<close>.
\<close>

type_synonym byte = "8 word"

datatype error = EOF | NetError

text \<open>
  What one call of \<^verbatim>\<open>connection.Read(buffer)\<close> delivers: the bytes it stores at the front
  of the buffer and its error.
\<close>

type_synonym readResult = "byte list \<times> error option"

text \<open>
  \<^verbatim>\<open>connect.Receive\<close> (connect.go 29-33): a fresh zeroed buffer of 4096 bytes, one
  \<^verbatim>\<open>Read\<close> into it, and the triple buffer, byte count, error. A \<^verbatim>\<open>Read\<close> never stores
  more than the buffer holds, so a scripted read is cut at 4096 bytes.
\<close>

definition Receive :: "readResult \<Rightarrow> byte list \<times> int \<times> error option" where
  "Receive r =
     (let d = take 4096 (fst r)
      in (d @ replicate (4096 - length d) 0, int (length d), snd r))"

datatype annotation = ReadAnnotation | StartAnnotation | EndAnnotation

text \<open>
  The packages \<^verbatim>\<open>protocol\<close>, \<^verbatim>\<open>config\<close> and the rest of \<^verbatim>\<open>connect\<close> are not among the
  sources. Every function and constant of theirs that the two files use is a field of
  this record, so each theorem below holds for any implementation of them. The functions
  are taken to return (a call that faults is outside the model).
\<close>

record codec =
  GetVersion :: "byte list \<Rightarrow> 32 word"
  GetMessageType :: "byte list \<Rightarrow> byte"
  GetMessageLength :: "byte list \<Rightarrow> 32 word"
  getAnnotations :: "byte list \<Rightarrow> annotation \<Rightarrow> bool"
  ValidateClient :: "byte list \<Rightarrow> bool"
  AuthenticateClient ::
    "byte list \<Rightarrow> int \<Rightarrow> readResult list \<Rightarrow> bool \<times> error option \<times> readResult list"
  SSLRequestCode :: "32 word"
  SSLAllowed :: byte
  SSLNotAllowed :: byte
  TerminateMessageType :: byte
  QueryMessageType :: byte
  ReadyForQueryMessageType :: byte
  sslRequestMessage :: "byte list"
  startupMessage :: "byte list"
  invalidAuthorizationMessage :: "byte list"

datatype panic = SliceBoundsOutOfRange | NilDereference

datatype outcome = Continue | Returned | Blocked | Panicked panic | Diverged

datatype event =
    SendClient "byte list"
  | SendBackend nat "byte list"
  | GetPool bool
  | PoolNext nat
  | ReturnPool nat bool
  | Lock
  | StatsIncrement string
  | Unlock
  | PoolReturn nat nat
  | ServerHandshake
  | ClientHandshake nat
  | CloseBackend nat

section \<open>The response drain sub-loop (proxy.go 275-306)\<close>

text \<open>
  The inner scan (proxy.go 288-297): \<^verbatim>\<open>for start := 0; start < length; { ... }\<close>. Each round
  reads the type and the length field of \<^verbatim>\<open>message[start:]\<close> and steps \<open>start\<close> by the
  length field plus one. The length field is a signed 32-bit value off the wire, so the
  step can be zero or negative: the loop may run forever (the value \<open>None\<close>), and
  \<^verbatim>\<open>message[start:]\<close> faults once \<open>start\<close> is negative.
\<close>

partial_function (option) scanFrames ::
  "codec \<Rightarrow> byte list \<Rightarrow> int \<Rightarrow> int \<Rightarrow> byte \<Rightarrow> (panic + byte) option" where
  "scanFrames c message len start messageType =
     (if start < len then
        (if start < 0 \<or> int (length message) < start then Some (Inl SliceBoundsOutOfRange)
         else scanFrames c message len
                (start + sint (GetMessageLength c (drop (nat start) message)) + 1)
                (GetMessageType c (drop (nat start) message)))
      else Some (Inr messageType))"

declare scanFrames.simps [code]

text \<open>
  The sub-loop \<^verbatim>\<open>for !done { ... }\<close>, one round per scripted read of the backend; with
  the script used up the read blocks. The flag \<open>done\<close> is written three times in a
  round, as in the source: on a read error (line 279), on a send error (line 302, sends
  do not fail in this model) and last, unconditionally, at line 305.
\<close>

fun drain :: "codec \<Rightarrow> readResult list \<Rightarrow> outcome \<times> event list \<times> readResult list" where
  "drain c [] = (Blocked, [], [])"
| "drain c (r # rs) =
     (case Receive r of (message, len, err) \<Rightarrow>
        (let done1 = (err \<noteq> None);
             messageType = GetMessageType c (take (nat len) message)
         in case scanFrames c message len 0 messageType of
              None \<Rightarrow> (Diverged, [], rs)
            | Some (Inl p) \<Rightarrow> (Panicked p, [], rs)
            | Some (Inr messageType) \<Rightarrow>
                (let sent = SendClient (take (nat len) message);
                     done2 = done1;
                     done3 = (messageType = ReadyForQueryMessageType c)
                 in if done3 then (Continue, [sent], rs)
                    else (case drain c rs of (out, evs, rest) \<Rightarrow> (out, sent # evs, rest)))))"

section \<open>Pools, the proxy and the session\<close>

text \<open>
  Modelled from the spec: the type \<^verbatim>\<open>pool.Pool\<close> (package \<^verbatim>\<open>pool\<close>, not among the sources).
  After the spec's 3 and 4.2, a pool belongs to one node, whose name it carries, and owns
  that node's free connections. Connections are named by numbers.
\<close>

record pool =
  Name :: string
  connections :: "nat list"

text \<open>
  Modelled from the spec: \<^verbatim>\<open>pool.NewPool\<close> (not among the sources), a pool that is created
  empty and seeded afterwards.
\<close>

definition NewPool :: "string \<Rightarrow> pool" where
  "NewPool name = \<lparr>Name = name, connections = []\<rparr>"

text \<open>
  Modelled from the spec: \<^verbatim>\<open>Pool.Add\<close> (not among the sources), which puts a seed
  connection into the free set.
\<close>

definition Add :: "pool \<Rightarrow> nat \<Rightarrow> pool" where
  "Add pl connection = pl\<lparr>connections := connections pl @ [connection]\<rparr>"

text \<open>
  Modelled from the spec: \<^verbatim>\<open>Pool.Next\<close> (not among the sources), which returns the next
  connection to use and takes it out of the free set; the caller waits (\<open>None\<close>) while
  there is none.
\<close>

definition Next :: "pool \<Rightarrow> (nat \<times> pool) option" where
  "Next pl =
     (case connections pl of
        [] \<Rightarrow> None
      | connection # free \<Rightarrow> Some (connection, pl\<lparr>connections := free\<rparr>))"

text \<open>
  Modelled from the spec: \<^verbatim>\<open>Pool.Return\<close> (not among the sources), which gives a drawn
  connection back to the free set, where later calls of \<open>Next\<close> find it.
\<close>

definition Return :: "pool \<Rightarrow> nat \<Rightarrow> pool" where
  "Return pl connection = pl\<lparr>connections := connections pl @ [connection]\<rparr>"

text \<open>
  \<^verbatim>\<open>type Proxy struct\<close> (proxy.go 30-37). The two channels of \<^verbatim>\<open>*pool.Pool\<close> are queues
  of pool addresses, and \<open>pools\<close> is the store those addresses point into: a session's
  \<^verbatim>\<open>cp\<close> and the channel entry are the same pool. \<^verbatim>\<open>Stats\<close> is a Go map, where reading a
  missing key gives 0.
\<close>

record proxy =
  writePools :: "nat list"
  readPools :: "nat list"
  pools :: "nat \<Rightarrow> pool"
  Stats :: "string \<rightharpoonup> 32 word"

text \<open>The local variables of the serving loop (proxy.go 204-209).\<close>

record session =
  statementBlock :: bool
  cp :: "nat option"
  backend :: "nat option"
  read :: bool
  endBlock :: bool
  nodeName :: string

definition newSession :: session where
  "newSession = \<lparr>statementBlock = False, cp = None, backend = None, read = False,
     endBlock = False, nodeName = []\<rparr>"

text \<open>\<^verbatim>\<open>getPool\<close> (proxy.go 105-110): a receive from the channel, which waits on an empty one.\<close>

definition getPool :: "proxy \<Rightarrow> bool \<Rightarrow> (nat \<times> proxy) option" where
  "getPool p rd =
     (if rd then
        (case readPools p of [] \<Rightarrow> None | pl # q \<Rightarrow> Some (pl, p\<lparr>readPools := q\<rparr>))
      else
        (case writePools p of [] \<Rightarrow> None | pl # q \<Rightarrow> Some (pl, p\<lparr>writePools := q\<rparr>)))"

text \<open>\<^verbatim>\<open>returnPool\<close> (proxy.go 115-121).\<close>

definition returnPool :: "proxy \<Rightarrow> nat \<Rightarrow> bool \<Rightarrow> proxy" where
  "returnPool p pl rd =
     (if rd then p\<lparr>readPools := readPools p @ [pl]\<rparr>
      else p\<lparr>writePools := writePools p @ [pl]\<rparr>)"

section \<open>One query frame (proxy.go 238-323)\<close>

text \<open>Lines 240-247: the block flags and the read intent, from the annotations.\<close>

definition annotate :: "(annotation \<Rightarrow> bool) \<Rightarrow> session \<Rightarrow> session" where
  "annotate annotations s =
     (let s1 = (if annotations StartAnnotation then s\<lparr>statementBlock := True\<rparr>
                else if annotations EndAnnotation
                  then s\<lparr>endBlock := True, statementBlock := False\<rparr>
                else s)
      in s1\<lparr>read := annotations ReadAnnotation\<rparr>)"

text \<open>The condition of line 253.\<close>

definition needsBackend :: "session \<Rightarrow> bool" where
  "needsBackend s \<longleftrightarrow>
     (\<not> statementBlock s \<and> \<not> endBlock s) \<or> cp s = None \<or> backend s = None"

text \<open>
  Lines 253-258. The result is \<open>Continue\<close> or, when the session waits for ever in
  \<open>getPool\<close> or in \<open>Next\<close>, \<open>Blocked\<close>; the calls made (a call that never returns
  included); and the proxy and the session as they then are.
\<close>

definition selectBackend :: "proxy \<Rightarrow> session \<Rightarrow> outcome \<times> event list \<times> proxy \<times> session" where
  "selectBackend p s =
     (if needsBackend s then
        (case getPool p (read s) of
           None \<Rightarrow> (Blocked, [GetPool (read s)], p, s)
         | Some (pl, p1) \<Rightarrow>
             (case Next (pools p1 pl) of
                None \<Rightarrow> (Blocked, [GetPool (read s), PoolNext pl], p1, s\<lparr>cp := Some pl\<rparr>)
              | Some (connection, pl') \<Rightarrow>
                  (let p2 = p1\<lparr>pools := (pools p1)(pl := pl')\<rparr>;
                       s1 = s\<lparr>cp := Some pl, backend := Some connection, nodeName := Name pl'\<rparr>
                   in (Continue, [GetPool (read s), PoolNext pl, ReturnPool pl (read s)],
                       returnPool p2 pl (read s), s1))))
      else (Continue, [], p, s))"

text \<open>Lines 261-263: \<^verbatim>\<open>p.Stats[nodeName] += 1\<close> between \<^verbatim>\<open>Lock\<close> and \<^verbatim>\<open>Unlock\<close>.\<close>

definition increment :: "(string \<rightharpoonup> 32 word) \<Rightarrow> string \<Rightarrow> (string \<rightharpoonup> 32 word)" where
  "increment stats name = stats(name \<mapsto> (case stats name of None \<Rightarrow> 0 | Some v \<Rightarrow> v) + 1)"

definition updateStats :: "proxy \<Rightarrow> session \<Rightarrow> event list \<times> proxy" where
  "updateStats p s =
     ([Lock, StatsIncrement (nodeName s), Unlock],
      p\<lparr>Stats := increment (Stats p) (nodeName s)\<rparr>)"

text \<open>
  Lines 312-323: outside a block the end flag is reset and the backend is given back to
  its pool. Neither \<^verbatim>\<open>cp\<close> nor \<^verbatim>\<open>backend\<close> is assigned here. \<^verbatim>\<open>cp.Return\<close> on a nil
  \<^verbatim>\<open>cp\<close> would fault; a nil \<^verbatim>\<open>backend\<close> does not get this far, as the send of line 266
  faults on it first.
\<close>

definition release :: "proxy \<Rightarrow> session \<Rightarrow> outcome \<times> event list \<times> proxy \<times> session" where
  "release p s =
     (if \<not> statementBlock s then
        (let s1 = (if endBlock s then s\<lparr>endBlock := False\<rparr> else s)
         in case (cp s1, backend s1) of
              (Some pl, Some connection) \<Rightarrow>
                (Continue, [PoolReturn pl connection],
                 p\<lparr>pools := (pools p)(pl := Return (pools p pl) connection)\<rparr>, s1)
            | _ \<Rightarrow> (Panicked NilDereference, [], p, s1))
      else (Continue, [], p, s))"

text \<open>
  The query branch as a whole. \<open>w\<close> gives, for each backend connection, the reads it
  will still deliver. A send to a nil backend faults; send errors are only logged
  (lines 266-269) and are not modelled.
\<close>

definition handleQuery ::
  "codec \<Rightarrow> proxy \<Rightarrow> session \<Rightarrow> (nat \<Rightarrow> readResult list) \<Rightarrow> byte list \<Rightarrow> int \<Rightarrow>
     outcome \<times> event list \<times> proxy \<times> session \<times> (nat \<Rightarrow> readResult list)" where
  "handleQuery c p s w message len =
     (let s1 = annotate (getAnnotations c message) s
      in case selectBackend p s1 of (out1, evs1, p2, s2) \<Rightarrow>
           if out1 \<noteq> Continue then (out1, evs1, p2, s2, w)
           else
             (case updateStats p2 s2 of (evs2, p3) \<Rightarrow>
                (case backend s2 of
                   None \<Rightarrow> (Panicked NilDereference, evs1 @ evs2, p3, s2, w)
                 | Some b \<Rightarrow>
                     (let sent = SendBackend b (take (nat len) message)
                      in case drain c (w b) of (out, evs3, rest) \<Rightarrow>
                           (let w' = w(b := rest)
                            in if out = Continue then
                                 (case release p3 s2 of (out4, evs4, p4, s4) \<Rightarrow>
                                    (out4, evs1 @ evs2 @ [sent] @ evs3 @ evs4, p4, s4, w'))
                               else (out, evs1 @ evs2 @ [sent] @ evs3, p3, s2, w'))))))"

section \<open>The serving loop (proxy.go 211-325)\<close>

text \<open>
  One round per scripted read of the client; with the script used up the read blocks.
  A read error leaves the loop, a terminate frame returns, a query frame is handled, and
  any other frame falls through to the next round.
\<close>

fun serve ::
  "codec \<Rightarrow> proxy \<Rightarrow> session \<Rightarrow> (nat \<Rightarrow> readResult list) \<Rightarrow> readResult list \<Rightarrow>
     outcome \<times> event list \<times> proxy \<times> session" where
  "serve c p s w [] = (Blocked, [], p, s)"
| "serve c p s w (r # rs) =
     (case Receive r of (message, len, err) \<Rightarrow>
        if err \<noteq> None then (Returned, [], p, s)
        else
          (let messageType = GetMessageType c message
           in if messageType = TerminateMessageType c then (Returned, [], p, s)
              else if messageType = QueryMessageType c then
                (case handleQuery c p s w message len of (out, evs, p', s', w') \<Rightarrow>
                   if out = Continue then
                     (case serve c p' s' w' rs of (out2, evs2, p2, s2) \<Rightarrow>
                        (out2, evs @ evs2, p2, s2))
                   else (out, evs, p', s'))
              else serve c p s w rs))"

text \<open>
  The sessions at the top of the rounds of \<open>serve\<close>, in order: an observation of the
  loop above, round by round, used to state what holds at the top of every round.
\<close>

fun roundStarts ::
  "codec \<Rightarrow> proxy \<Rightarrow> session \<Rightarrow> (nat \<Rightarrow> readResult list) \<Rightarrow> readResult list \<Rightarrow> session list" where
  "roundStarts c p s w [] = [s]"
| "roundStarts c p s w (r # rs) =
     s # (case Receive r of (message, len, err) \<Rightarrow>
            if err \<noteq> None then []
            else
              (let messageType = GetMessageType c message
               in if messageType = TerminateMessageType c then []
                  else if messageType = QueryMessageType c then
                    (case handleQuery c p s w message len of (out, evs, p', s', w') \<Rightarrow>
                       if out = Continue then roundStarts c p' s' w' rs else [])
                  else roundStarts c p s w rs))"

section \<open>Accepting a client (proxy.go 124-201)\<close>

text \<open>
  Modelled from the spec: \<^verbatim>\<open>connect.UpgradeServerConnection\<close> is not among the sources.
  After the spec's 4.1 (client side), the server-side half of the upgrade handshake is
  performed if acceptance was sent, that is if the proxy's own SSL flag is enabled, and
  not otherwise. The boolean says whether the client connection is encrypted.
\<close>

definition UpgradeServerConnection :: "bool \<Rightarrow> bool \<Rightarrow> event list \<times> bool" where
  "UpgradeServerConnection sslEnable encrypted =
     (if sslEnable then ([ServerHandshake], True) else ([], encrypted))"

text \<open>
  Lines 126-167, up to the startup frame that is validated next. An error of the first
  read is only logged. After an SSL request the one-byte response is sent, the upgrade
  function is called, and the startup frame is read again; end of stream there returns.
  The boolean of either result is the state of \<^verbatim>\<open>client\<close>, the connection that line 155
  assigns and that every later read and send of the session goes through: whether it is
  encrypted.
\<close>

datatype startup =
    StartupClosed outcome "event list" bool
  | StartupFrame "event list" bool "byte list" int "readResult list"

definition awaitStartup :: "codec \<Rightarrow> bool \<Rightarrow> readResult list \<Rightarrow> startup" where
  "awaitStartup c sslEnable client =
     (case client of
        [] \<Rightarrow> StartupClosed Blocked [] False
      | r # rs \<Rightarrow>
          (case Receive r of (message, len, err) \<Rightarrow>
             (let version = GetVersion c message
              in if version = SSLRequestCode c then
                   (let sslResponse = [if sslEnable then SSLAllowed c else SSLNotAllowed c]
                    in case UpgradeServerConnection sslEnable False of (hs, encrypted) \<Rightarrow>
                         (case rs of
                            [] \<Rightarrow> StartupClosed Blocked (SendClient sslResponse # hs) encrypted
                          | r2 # rs2 \<Rightarrow>
                              (case Receive r2 of (message2, len2, err2) \<Rightarrow>
                                 if err2 = Some EOF
                                 then StartupClosed Returned (SendClient sslResponse # hs)
                                        encrypted
                                 else StartupFrame (SendClient sslResponse # hs) encrypted
                                        message2 len2 rs2)))
                 else StartupFrame [] False message len rs)))"

text \<open>
  Lines 176-201 and the call of the serving loop, for the startup frame \<open>message\<close>.
  \<^verbatim>\<open>err.Error()\<close> at line 197 is a method call on the interface value \<^verbatim>\<open>err\<close>: on
  \<^verbatim>\<open>nil\<close> it faults.
\<close>

definition admit ::
  "codec \<Rightarrow> proxy \<Rightarrow> (nat \<Rightarrow> readResult list) \<Rightarrow> byte list \<Rightarrow> int \<Rightarrow> readResult list \<Rightarrow>
     outcome \<times> event list \<times> proxy \<times> session" where
  "admit c p w message len rs =
     (if \<not> ValidateClient c message
      then (Returned, [SendClient (invalidAuthorizationMessage c)], p, newSession)
      else
        (case AuthenticateClient c message len rs of (authenticated, err, rs') \<Rightarrow>
           if err = Some EOF then (Returned, [], p, newSession)
           else if \<not> authenticated then
             (case err of
                None \<Rightarrow> (Panicked NilDereference, [], p, newSession)
              | Some e \<Rightarrow> (Returned, [], p, newSession))
           else serve c p newSession w rs'))"

text \<open>
  The handler as a whole. Nothing after line 155 assigns \<^verbatim>\<open>client\<close>, so the session ends
  with the connection that the startup phase left; its state is the last component of
  the result.
\<close>

definition HandleConnection ::
  "codec \<Rightarrow> bool \<Rightarrow> proxy \<Rightarrow> (nat \<Rightarrow> readResult list) \<Rightarrow> readResult list \<Rightarrow>
     outcome \<times> event list \<times> proxy \<times> session \<times> bool" where
  "HandleConnection c sslEnable p w client =
     (case awaitStartup c sslEnable client of
        StartupClosed out evs encrypted \<Rightarrow> (out, evs, p, newSession, encrypted)
      | StartupFrame evs encrypted message len rs \<Rightarrow>
          (case admit c p w message len rs of (out, evs2, p', s') \<Rightarrow>
             (out, evs @ evs2, p', s', encrypted)))"

section \<open>Dialling a backend (connect.go 35-93)\<close>

record connection =
  ident :: nat
  closed :: bool
  encrypted :: bool

text \<open>
  What the network answers to one call of \<^verbatim>\<open>Connect\<close>: the result of \<^verbatim>\<open>net.Dial\<close>, of
  the write of the SSL request and of the read of the response.
\<close>

record dialer =
  dial :: "error + nat"
  probeWrite :: "error option"
  probeRead :: readResult

text \<open>
  Modelled from the spec: \<^verbatim>\<open>connect.UpgradeClientConnection\<close> is not among the sources.
  After the spec's 4.1 (backend side) it performs the upgrade handshake and returns the
  encrypted connection.
\<close>

definition UpgradeClientConnection :: "connection \<Rightarrow> event list \<times> connection" where
  "UpgradeClientConnection cn = ([ClientHandshake (ident cn)], cn\<lparr>encrypted := True\<rparr>)"

definition Connect ::
  "codec \<Rightarrow> bool \<Rightarrow> dialer \<Rightarrow> connection option \<times> error option \<times> event list" where
  "Connect c sslEnable d =
     (case dial d of
        Inl e \<Rightarrow> (None, Some e, [])
      | Inr k \<Rightarrow>
          (let cn = \<lparr>ident = k, closed = False, encrypted = False\<rparr>
           in if sslEnable then
                (let probe = SendBackend k (sslRequestMessage c)
                 in case probeWrite d of
                      Some e \<Rightarrow> (None, Some e, [probe])
                    | None \<Rightarrow>
                        (case Receive (probeRead d) of (response, n, err) \<Rightarrow>
                           (case err of
                              Some e \<Rightarrow> (None, Some e, [probe])
                            | None \<Rightarrow>
                                if length response > 0 \<and> response ! 0 \<noteq> 83
                                then (Some (cn\<lparr>closed := True\<rparr>), None, [probe, CloseBackend k])
                                else (case UpgradeClientConnection cn of (hs, cn') \<Rightarrow>
                                        (Some cn', None, probe # hs)))))
              else (Some cn, None, [])))"

section \<open>Seeding the pools (proxy.go 50-101)\<close>

text \<open>
  What the network answers to one seed connection: the answers to \<^verbatim>\<open>Connect\<close>; what the
  \<^verbatim>\<open>connection.Read\<close> of line 84 delivers (\<open>None\<close> when the backend never answers and the
  read waits for ever); and what \<^verbatim>\<open>connect.HandleAuthenticationRequest\<close> (not among the
  sources) returns on this connection for the response read.
\<close>

record attempt =
  dialing :: dialer
  startupRead :: "readResult option"
  authenticate :: "byte list \<Rightarrow> bool"

text \<open>
  One seed connection (lines 72-98). \<^verbatim>\<open>connection.Write\<close> at line 81 comes before the
  check of \<^verbatim>\<open>err\<close>: it is a method call on the nil interface when \<^verbatim>\<open>Connect\<close> failed,
  which faults. The results of the write and of the read are dropped (lines 81, 84).
\<close>

definition seedConnection ::
  "codec \<Rightarrow> bool \<Rightarrow> pool \<Rightarrow> attempt \<Rightarrow> outcome \<times> event list \<times> pool" where
  "seedConnection c sslEnable newPool a =
     (case Connect c sslEnable (dialing a) of (conn, err, evs) \<Rightarrow>
        (case conn of
           None \<Rightarrow> (Panicked NilDereference, evs, newPool)
         | Some cn \<Rightarrow>
             (let evs' = evs @ [SendBackend (ident cn) (startupMessage c)]
              in case startupRead a of
                   None \<Rightarrow> (Blocked, evs', newPool)
                 | Some r \<Rightarrow>
                     (case Receive r of (response, n, rerr) \<Rightarrow>
                        (let authenticated = authenticate a response
                         in if err \<noteq> None then (Continue, evs', newPool)
                            else (Continue, evs', Add newPool (ident cn)))))))"

text \<open>\<^verbatim>\<open>for i := 0; i < capacity; i++\<close>, with \<open>n\<close> the rounds still to run.\<close>

fun seedLoop ::
  "codec \<Rightarrow> bool \<Rightarrow> (nat \<Rightarrow> attempt) \<Rightarrow> nat \<Rightarrow> nat \<Rightarrow> pool \<Rightarrow> outcome \<times> event list \<times> pool" where
  "seedLoop c sslEnable world i 0 newPool = (Continue, [], newPool)"
| "seedLoop c sslEnable world i (Suc n) newPool =
     (case seedConnection c sslEnable newPool (world i) of (out, evs, pl) \<Rightarrow>
        if out = Continue then
          (case seedLoop c sslEnable world (Suc i) n pl of (out2, evs2, pl2) \<Rightarrow>
             (out2, evs @ evs2, pl2))
        else (out, evs, pl))"

datatype role = NODE_ROLE_MASTER | NODE_ROLE_REPLICA

text \<open>
  \<^verbatim>\<open>for name, node := range nodes\<close>: the nodes in the order the range visits them, each
  with its role. The pool of the \<open>k\<close>-th node lives at address \<open>k\<close>; it is put on its
  channel first and filled after, through the same address.
\<close>

fun setupNodes ::
  "codec \<Rightarrow> bool \<Rightarrow> nat \<Rightarrow> (string \<Rightarrow> nat \<Rightarrow> attempt) \<Rightarrow> (string \<times> role) list \<Rightarrow> nat \<Rightarrow> proxy \<Rightarrow>
     outcome \<times> event list \<times> proxy" where
  "setupNodes c sslEnable capacity world [] k p = (Continue, [], p)"
| "setupNodes c sslEnable capacity world ((name, rl) # nodes) k p =
     (let p1 = (if rl = NODE_ROLE_MASTER then p\<lparr>writePools := writePools p @ [k]\<rparr>
                else p\<lparr>readPools := readPools p @ [k]\<rparr>)
      in case seedLoop c sslEnable (world name) 0 capacity (NewPool name) of (out, evs, pl) \<Rightarrow>
           (let p2 = p1\<lparr>pools := (pools p1)(k := pl)\<rparr>
            in if out = Continue then
                 (case setupNodes c sslEnable capacity world nodes (Suc k) p2 of (out2, evs2, p3) \<Rightarrow>
                    (out2, evs @ evs2, p3))
               else (out, evs, p2)))"

definition setupPools ::
  "codec \<Rightarrow> bool \<Rightarrow> nat \<Rightarrow> (string \<Rightarrow> nat \<Rightarrow> attempt) \<Rightarrow> (string \<times> role) list \<Rightarrow>
     outcome \<times> event list \<times> proxy" where
  "setupPools c sslEnable capacity world nodes =
     setupNodes c sslEnable capacity world nodes 0
       \<lparr>writePools = [], readPools = [], pools = (\<lambda>k. NewPool []), Stats = Map.empty\<rparr>"

section \<open>Frames and a concrete collaborator\<close>

text \<open>
  The codec reads the byte string \<open>f\<close> as one frame, whatever follows it in the
  buffer: its type is the first byte of \<open>f\<close>, and its length field plus one, the step
  of the scan, is the size of \<open>f\<close>.
\<close>

definition decodes :: "codec \<Rightarrow> byte list \<Rightarrow> bool" where
  "decodes c f \<longleftrightarrow>
     f \<noteq> [] \<and>
     (\<forall>rest. GetMessageType c (f @ rest) = hd f \<and>
             sint (GetMessageLength c (f @ rest)) = int (length f) - 1)"

text \<open>
  Modelled from the spec: the reading of a 32-bit field, as the codec of package
  \<^verbatim>\<open>protocol\<close> (not among the sources) does it for the version and the length; here the
  first four bytes, big-endian.
\<close>

definition be32 :: "byte list \<Rightarrow> 32 word" where
  "be32 bs = foldl (\<lambda>acc b. acc * 256 + ucast b) 0 (take 4 bs)"

text \<open>
  Modelled from the spec: the annotations that \<^verbatim>\<open>getAnnotations\<close> (not among the sources)
  finds in a query; here one marker byte per annotation.
\<close>

definition marker :: "annotation \<Rightarrow> byte" where
  "marker a = (case a of ReadAnnotation \<Rightarrow> 114 | StartAnnotation \<Rightarrow> 115 | EndAnnotation \<Rightarrow> 101)"

text \<open>
  Modelled from the spec: the protocol codec, the credential checks and the constants the
  two source files take from the packages \<^verbatim>\<open>protocol\<close>, \<^verbatim>\<open>config\<close> and \<^verbatim>\<open>connect\<close>, none
  of which is among the sources. This instance is what the model is run on at concrete
  inputs; the theorems hold for every codec. After the spec's 3 and 6, a frame is a type
  byte, a length field and a payload; here the length field is four bytes, big-endian,
  and counts itself and the payload. The annotation of a query is the marker byte at the
  start of its payload, and every client is accepted.
\<close>

definition pgCodec :: codec where
  "pgCodec = \<lparr>
     GetVersion = (\<lambda>m. be32 (drop 4 m)),
     GetMessageType = (\<lambda>m. case m of [] \<Rightarrow> 0 | b # bs \<Rightarrow> b),
     GetMessageLength = (\<lambda>m. be32 (drop 1 m)),
     getAnnotations = (\<lambda>m a. take 1 (drop 5 m) = [marker a]),
     ValidateClient = (\<lambda>m. True),
     AuthenticateClient = (\<lambda>m n rs. (True, None, rs)),
     SSLRequestCode = 80877103,
     SSLAllowed = 83,
     SSLNotAllowed = 78,
     TerminateMessageType = 88,
     QueryMessageType = 81,
     ReadyForQueryMessageType = 90,
     sslRequestMessage = [0, 0, 0, 8, 4, 210, 22, 47],
     startupMessage = [0, 0, 0, 8, 0, 3, 0, 0],
     invalidAuthorizationMessage = [69, 0, 0, 0, 4]\<rparr>"

text \<open>
  A proxy with one primary pool (address 0, connection 7) and one replica pool (address
  1, connection 8), and backends that answer every query with one ready-for-query frame.
\<close>

definition demoProxy :: proxy where
  "demoProxy = \<lparr>writePools = [0], readPools = [1],
     pools = (\<lambda>k. if k = 0 then \<lparr>Name = ''master'', connections = [7]\<rparr>
                   else \<lparr>Name = ''replica'', connections = [8]\<rparr>),
     Stats = Map.empty\<rparr>"

definition demoWorld :: "nat \<Rightarrow> readResult list" where
  "demoWorld b = replicate 3 ([90, 0, 0, 0, 5, 73], None)"

text \<open>
  Three query frames: one without annotation, one that starts a block, one that ends it.
\<close>

definition plainQuery :: "byte list" where
  "plainQuery = [81, 0, 0, 0, 5, 120]"

definition beginQuery :: "byte list" where
  "beginQuery = [81, 0, 0, 0, 5, 115]"

definition endQuery :: "byte list" where
  "endQuery = [81, 0, 0, 0, 5, 101]"

text \<open>The part of a trace that concerns the statistics and the relay to the backend.\<close>

fun relayEvent :: "event \<Rightarrow> bool" where
  "relayEvent Lock = True"
| "relayEvent Unlock = True"
| "relayEvent (StatsIncrement n) = True"
| "relayEvent (SendBackend b m) = True"
| "relayEvent e = False"

text \<open>A trace in which the pool selector was called (\<^verbatim>\<open>p.getPool\<close>, line 254).\<close>

definition acquires :: "event list \<Rightarrow> bool" where
  "acquires evs \<longleftrightarrow> (\<exists>rd. GetPool rd \<in> set evs)"

text \<open>The concrete collaborator with an authentication exchange that fails with \<open>err\<close>.\<close>

definition failingAuth :: "error option \<Rightarrow> codec" where
  "failingAuth err = pgCodec\<lparr>AuthenticateClient := (\<lambda>m n rs. (False, err, rs))\<rparr>"


section \<open>Properties of the drain sub-loop\<close>

lemma Receive_small:
  "length d \<le> 4096 \<Longrightarrow>
   Receive (d, err) = (d @ replicate (4096 - length d) 0, int (length d), err)"
  by (simp add: Receive_def)

text \<open>
  On a batch of frames the scan visits every frame and ends with the type of the last
  one. The induction is over the frames still ahead, with the bytes already passed
  (\<open>pre\<close>) and the type carried along generalised.
\<close>

lemma scanFrames_framed:
  assumes "\<forall>f\<in>set fs. decodes c f"
  shows "scanFrames c (pre @ concat fs @ pad) (int (length pre + length (concat fs)))
           (int (length pre)) mt
         = Some (Inr (if fs = [] then mt else hd (last fs)))"
  using assms
proof (induction fs arbitrary: pre mt)
  case Nil
  show ?case by (subst scanFrames.simps) simp
next
  case (Cons f fs)
  from Cons.prems have d: "decodes c f" and rest: "\<forall>g\<in>set fs. decodes c g" by simp_all
  from d have ne: "f \<noteq> []" by (simp add: decodes_def)
  have ty: "GetMessageType c (f @ concat fs @ pad) = hd f"
    and ln: "sint (GetMessageLength c (f @ concat fs @ pad)) = int (length f) - 1"
    using d by (simp_all add: decodes_def)
  have ih: "scanFrames c ((pre @ f) @ concat fs @ pad)
              (int (length (pre @ f) + length (concat fs))) (int (length (pre @ f))) (hd f)
            = Some (Inr (if fs = [] then hd f else hd (last fs)))"
    by (rule Cons.IH [OF rest])
  have e1: "pre @ concat (f # fs) @ pad = (pre @ f) @ concat fs @ pad" by simp
  have e2: "int (length pre + length (concat (f # fs)))
              = int (length (pre @ f) + length (concat fs))"
    by simp
  have dr: "drop (nat (int (length pre))) ((pre @ f) @ concat fs @ pad) = f @ concat fs @ pad"
    by simp
  have nx: "int (length pre) + sint (GetMessageLength c (f @ concat fs @ pad)) + 1
              = int (length (pre @ f))"
    using ln by simp
  have lt: "int (length pre) < int (length (pre @ f) + length (concat fs))"
    using ne by (cases f) simp_all
  have ge: "\<not> (int (length pre) < 0
              \<or> int (length ((pre @ f) @ concat fs @ pad)) < int (length pre))"
    by simp
  have "scanFrames c ((pre @ f) @ concat fs @ pad) (int (length (pre @ f) + length (concat fs)))
          (int (length pre)) mt
        = Some (Inr (if fs = [] then hd f else hd (last fs)))"
    apply (subst scanFrames.simps)
    unfolding dr nx ty ih
    using lt ge by (simp only: if_True if_False)
  then show ?case unfolding e1 e2 by simp
qed

lemma drain_framed:
  assumes "fs \<noteq> []" and "\<forall>f\<in>set fs. decodes c f" and "length (concat fs) \<le> 4096"
  shows "drain c ((concat fs, err) # rs) =
     (if hd (last fs) = ReadyForQueryMessageType c
      then (Continue, [SendClient (concat fs)], rs)
      else (case drain c rs of (out, evs, rest) \<Rightarrow> (out, SendClient (concat fs) # evs, rest)))"
proof -
  have sc: "scanFrames c (concat fs @ replicate (4096 - length (concat fs)) 0)
              (int (length (concat fs))) 0 mt = Some (Inr (hd (last fs)))" for mt
    using scanFrames_framed [OF assms(2), of "[]" "replicate (4096 - length (concat fs)) 0" mt]
      assms(1)
    by simp
  show ?thesis
    by (simp add: Receive_small [OF assms(3)] sc Let_def)
qed

text \<open>A drain that ends has used at least one read.\<close>

lemma drain_shorter: "drain c rs = (Continue, evs, rest) \<Longrightarrow> length rest < length rs"
proof (induction rs arbitrary: evs rest)
  case Nil
  then show ?case by simp
next
  case (Cons r rs)
  then show ?case
    by (auto simp: Let_def split: prod.splits option.splits sum.splits if_splits)
qed

text \<open>
  One round, whatever the bytes: if the scan ends with the type \<open>t\<close>, the sub-loop ends
  after this read exactly when \<open>t\<close> is the ready-for-query tag.
\<close>

lemma drain_round:
  assumes "Receive r = (message, len, err)"
    and "scanFrames c message len 0 (GetMessageType c (take (nat len) message)) = Some (Inr t)"
  shows "drain c (r # rs) = (Continue, [SendClient (take (nat len) message)], rs)
           \<longleftrightarrow> t = ReadyForQueryMessageType c"
proof (cases "t = ReadyForQueryMessageType c")
  case True
  with assms show ?thesis by (simp add: Let_def)
next
  case False
  obtain out evs rest where d: "drain c rs = (out, evs, rest)" by (cases "drain c rs")
  have "\<not> (out = Continue \<and> rest = rs)" using drain_shorter [of c rs evs rest] d by auto
  with assms False d show ?thesis by (auto simp: Let_def)
qed

lemma pg_decodes_C: "decodes pgCodec [67, 0, 0, 0, 4]"
  by (simp add: decodes_def pgCodec_def be32_def)

lemma pg_decodes_Z: "decodes pgCodec [90, 0, 0, 0, 5, 73]"
  by (simp add: decodes_def pgCodec_def be32_def)

text \<open>
  Claim C5. Let one read of the backend deliver a batch of one or more frames, each
  read by the codec as a frame. Then the scan steps through the batch by the length
  fields, and the sub-loop ends after this read exactly when the type of the last frame
  is the ready-for-query tag: it then has forwarded the batch to the client and has used
  this one read only (the rest of the script is untouched). Otherwise it forwards the
  batch and reads again. Whether the read also gave an error makes no difference. (For
  bytes that are not a batch of frames, \<open>drain_round\<close> says the same of the last type
  the scan has read.)
\<close>

theorem drain_ends_iff_last_frame_ready:
  assumes "fs \<noteq> []" and "\<forall>f\<in>set fs. decodes c f" and "length (concat fs) \<le> 4096"
  shows "drain c ((concat fs, err) # rs) =
           (if hd (last fs) = ReadyForQueryMessageType c
            then (Continue, [SendClient (concat fs)], rs)
            else (case drain c rs of
                    (out, evs, rest) \<Rightarrow> (out, SendClient (concat fs) # evs, rest)))
         \<and> (drain c ((concat fs, err) # rs) = (Continue, [SendClient (concat fs)], rs)
              \<longleftrightarrow> hd (last fs) = ReadyForQueryMessageType c)"
proof -
  note eq = drain_framed [OF assms, of err rs]
  have "drain c ((concat fs, err) # rs) \<noteq> (Continue, [SendClient (concat fs)], rs)"
    if "hd (last fs) \<noteq> ReadyForQueryMessageType c"
  proof
    assume a: "drain c ((concat fs, err) # rs) = (Continue, [SendClient (concat fs)], rs)"
    obtain out evs rest where d: "drain c rs = (out, evs, rest)"
      by (cases "drain c rs") auto
    from a eq that d have "out = Continue" and "rest = rs" by simp_all
    with d drain_shorter [of c rs evs rest] show False by simp
  qed
  with eq show ?thesis by auto
qed

theorem drain_ends_iff_last_frame_ready_witness:
  "decodes pgCodec [67, 0, 0, 0, 4] \<and> decodes pgCodec [90, 0, 0, 0, 5, 73] \<and>
   drain pgCodec [([67, 0, 0, 0, 4, 90, 0, 0, 0, 5, 73], None)]
     = (Continue, [SendClient [67, 0, 0, 0, 4, 90, 0, 0, 0, 5, 73]], [])"
proof -
  let ?fs = "[[67, 0, 0, 0, 4], [90, 0, 0, 0, 5, 73 :: byte]]"
  have ne: "?fs \<noteq> []" by simp
  have h: "\<forall>f\<in>set ?fs. decodes pgCodec f"
    by (simp add: pg_decodes_C pg_decodes_Z)
  have le: "length (concat ?fs) \<le> 4096" by simp
  have rdy: "hd (last ?fs) = ReadyForQueryMessageType pgCodec" by (simp add: pgCodec_def)
  have "drain pgCodec ((concat ?fs, None) # []) = (Continue, [SendClient (concat ?fs)], [])"
    using drain_ends_iff_last_frame_ready [OF ne h le, of None "[]"] rdy
    by (simp only: simp_thms if_True)
  then show ?thesis by (simp add: pg_decodes_C pg_decodes_Z del: drain.simps)
qed

lemma pg_drain_ready:
  "drain pgCodec (([90, 0, 0, 0, 5, 73], None) # rs)
     = (Continue, [SendClient [90, 0, 0, 0, 5, 73]], rs)"
  using drain_framed [of "[[90, 0, 0, 0, 5, 73]]" pgCodec None rs] pg_decodes_Z
  by (simp add: pgCodec_def del: drain.simps)

text \<open>
  The error of a read plays no part in a round of the sub-loop: line 279 sets \<open>done\<close>,
  and line 305 overwrites it.
\<close>

lemma drain_error_ignored: "drain c ((d, Some e) # rs) = drain c ((d, None) # rs)"
  by (simp add: Receive_def Let_def split: option.split sum.split)

text \<open>
  Claim C2 says that a read error ends the sub-loop. The code does not end it. In the
  first run the backend's read delivers an error-response frame (type 69) together with
  end of stream, as an encrypted connection does when the peer's close follows the data:
  the loop forwards the frame and goes back to read, where the script leaves it waiting.
  In the second run the read fails with end of stream and no bytes, the type computed
  for the empty batch is not the ready tag, and the loop forwards the empty batch and
  reads a second time; it ends only on the ready-for-query frame of that second read.
\<close>

theorem drain_reads_again_after_read_error:
  "drain pgCodec [([69, 0, 0, 0, 4], Some EOF)] = (Blocked, [SendClient [69, 0, 0, 0, 4]], [])
   \<and> drain pgCodec [([], Some EOF), ([90, 0, 0, 0, 5, 73], None)]
       = (Continue, [SendClient [], SendClient [90, 0, 0, 0, 5, 73]], [])"
  by (simp add: Receive_def scanFrames.simps pgCodec_def be32_def Let_def)

section \<open>Properties of the serving loop\<close>

text \<open>
  Claim C9. A frame that was read without error and whose type is neither the terminate
  tag nor the query tag is dropped: serving it and then the frames after it is the same
  as serving the frames after it from the same proxy, session and backends, so the round
  sends nothing to a backend or to the client, changes no counter and touches no pool,
  and the loop goes on to the next read. Served alone, it leaves the session waiting for
  the next frame with an empty trace.
\<close>

theorem other_frames_discarded:
  assumes "snd r = None"
    and "GetMessageType c (fst (Receive r)) \<noteq> TerminateMessageType c"
    and "GetMessageType c (fst (Receive r)) \<noteq> QueryMessageType c"
  shows "serve c p s w (r # rs) = serve c p s w rs
       \<and> serve c p s w [r] = (Blocked, [], p, s)"
  using assms by (cases r) (simp add: Receive_def Let_def)

theorem other_frames_discarded_witness:
  "GetMessageType pgCodec (fst (Receive ([83, 0, 0, 0, 4], None))) = 83
   \<and> serve pgCodec demoProxy newSession demoWorld [([83, 0, 0, 0, 4], None)]
       = (Blocked, [], demoProxy, newSession)"
proof -
  have ty: "GetMessageType pgCodec (fst (Receive ([83, 0, 0, 0, 4], None))) = 83"
    by (simp add: Receive_def pgCodec_def)
  have h1: "snd (([83, 0, 0, 0, 4], None) :: readResult) = None" by simp
  have h2: "GetMessageType pgCodec (fst (Receive ([83, 0, 0, 0, 4], None)))
              \<noteq> TerminateMessageType pgCodec"
    unfolding ty by (simp add: pgCodec_def)
  have h3: "GetMessageType pgCodec (fst (Receive ([83, 0, 0, 0, 4], None)))
              \<noteq> QueryMessageType pgCodec"
    unfolding ty by (simp add: pgCodec_def)
  have sv: "serve pgCodec demoProxy newSession demoWorld [([83, 0, 0, 0, 4], None)]
              = (Blocked, [], demoProxy, newSession)"
    using other_frames_discarded [OF h1 h2 h3, of demoProxy newSession demoWorld "[]"]
    by (rule conjunct2)
  from ty sv show ?thesis by (rule conjI)
qed

subsection \<open>What a query round emits\<close>

lemma drain_events: "drain c rs = (out, evs, rest) \<Longrightarrow> \<forall>e\<in>set evs. \<exists>m. e = SendClient m"
proof (induction rs arbitrary: out evs rest)
  case Nil
  then show ?case by simp
next
  case (Cons r rs)
  then show ?case
    by (fastforce simp: Let_def split: prod.splits option.splits sum.splits if_splits)
qed

lemma drain_no_GetPool: "drain c rs = (out, evs, rest) \<Longrightarrow> GetPool rd \<notin> set evs"
  using drain_events by fastforce

lemma drain_filter_relay: "drain c rs = (out, evs, rest) \<Longrightarrow> filter relayEvent evs = []"
  using drain_events by (fastforce simp: filter_empty_conv)

lemma release_events:
  "release p s = (out, evs, p', s') \<Longrightarrow> evs = [] \<or> (\<exists>pl b. evs = [PoolReturn pl b])"
  by (auto simp: release_def Let_def split: if_splits option.splits)

lemma release_keeps:
  "release p s = (out, evs, p', s') \<Longrightarrow>
     Stats p' = Stats p \<and> nodeName s' = nodeName s \<and> backend s' = backend s \<and> cp s' = cp s
     \<and> statementBlock s' = statementBlock s"
  by (auto simp: release_def Let_def split: if_splits option.splits)

lemma annotate_keeps:
  "cp (annotate a s) = cp s" "backend (annotate a s) = backend s"
  "nodeName (annotate a s) = nodeName s"
  by (simp_all add: annotate_def Let_def)

lemma selectBackend_acquires: "acquires (fst (snd (selectBackend p s))) \<longleftrightarrow> needsBackend s"
  by (auto simp: selectBackend_def acquires_def Let_def split: option.splits)

lemma selectBackend_blocked:
  assumes "selectBackend p s = (out1, evs1, p2, s2)" and "out1 \<noteq> Continue"
  shows "\<forall>b m. SendBackend b m \<notin> set evs1"
  using assms
  by (auto simp: selectBackend_def Let_def split: if_splits option.splits)

lemma selectBackend_result:
  assumes "selectBackend p s = (Continue, evs1, p2, s2)"
  shows "filter relayEvent evs1 = []" and "\<forall>b m. SendBackend b m \<notin> set evs1"
    and "Stats p2 = Stats p"
    and "needsBackend s \<Longrightarrow>
           \<exists>pl. cp s2 = Some pl \<and> nodeName s2 = Name (pools p pl) \<and> backend s2 \<noteq> None"
    and "\<not> needsBackend s \<Longrightarrow> s2 = s \<and> p2 = p"
  using assms
  by (auto simp: selectBackend_def getPool_def returnPool_def Next_def Let_def
      split: if_splits option.splits list.splits)

lemma handleQuery_acquires:
  "acquires (fst (snd (handleQuery c p s w message len)))
     \<longleftrightarrow> needsBackend (annotate (getAnnotations c message) s)"
proof -
  let ?s1 = "annotate (getAnnotations c message) s"
  obtain out1 evs1 p2 s2 where sel: "selectBackend p ?s1 = (out1, evs1, p2, s2)"
    by (cases "selectBackend p ?s1")
  have a1: "acquires evs1 \<longleftrightarrow> needsBackend ?s1"
    using selectBackend_acquires [of p ?s1] sel by simp
  show ?thesis
  proof (cases "out1 = Continue")
    case False
    with sel a1 show ?thesis by (simp add: handleQuery_def Let_def)
  next
    case True
    show ?thesis
    proof (cases "backend s2")
      case None
      with sel True a1 show ?thesis
        by (auto simp: handleQuery_def Let_def updateStats_def acquires_def)
    next
      case (Some b)
      obtain out evs3 rest where dr: "drain c (w b) = (out, evs3, rest)"
        by (cases "drain c (w b)")
      obtain out4 evs4 p4 s4 where rl:
        "release (snd (updateStats p2 s2)) s2 = (out4, evs4, p4, s4)"
        by (cases "release (snd (updateStats p2 s2)) s2")
      have n3: "GetPool rd \<notin> set evs3" for rd using drain_no_GetPool [OF dr] .
      have n4: "GetPool rd \<notin> set evs4" for rd using release_events [OF rl] by auto
      from sel True Some dr rl a1 n3 n4 show ?thesis
        by (auto simp: handleQuery_def Let_def updateStats_def acquires_def)
    qed
  qed
qed

text \<open>
  The end flag is false at the top of every round of the loop: it is false in a new
  session, and a query round that returns to the loop leaves it false; so it is false in
  every session of \<open>roundStarts\<close>.
\<close>

lemma newSession_end_reset: "\<not> endBlock newSession"
  by (simp add: newSession_def)

lemma handleQuery_keeps_end_reset:
  assumes "handleQuery c p s w message len = (Continue, evs, p', s', w')" and "\<not> endBlock s"
  shows "\<not> endBlock s'"
  using assms
  by (auto simp: handleQuery_def annotate_def selectBackend_def release_def updateStats_def Let_def
      split: prod.splits option.splits if_splits)

lemma roundStarts_end_reset:
  "\<not> endBlock s \<Longrightarrow> \<forall>t\<in>set (roundStarts c p s w rs). \<not> endBlock t"
proof (induction rs arbitrary: p s w)
  case Nil
  then show ?case by simp
next
  case (Cons r rs)
  obtain message len err where rc: "Receive r = (message, len, err)" by (cases "Receive r")
  obtain out evs p' s' w' where hq: "handleQuery c p s w message len = (out, evs, p', s', w')"
    by (cases "handleQuery c p s w message len")
  have nxt: "\<forall>t\<in>set (roundStarts c p' s' w' rs). \<not> endBlock t" if "out = Continue"
    using Cons.IH [of s' p' w'] handleQuery_keeps_end_reset [OF hq [unfolded that] Cons.prems]
    by simp
  from Cons.IH [OF Cons.prems, of p w] Cons.prems rc hq nxt show ?case
    by (auto simp: Let_def)
qed











text \<open>
  The round of one query without annotation on a new session of the demo proxy, run.
\<close>

lemma pg_plain_round:
  "(case handleQuery pgCodec demoProxy newSession demoWorld (fst (Receive (plainQuery, None))) 6 of
      (out, evs, p', s', w') \<Rightarrow>
        (out, evs, connections (pools p' 0), statementBlock s', cp s', backend s', endBlock s'))
     = (Continue,
        [GetPool False, PoolNext 0, ReturnPool 0 False, Lock, StatsIncrement ''master'', Unlock,
         SendBackend 7 plainQuery, SendClient [90, 0, 0, 0, 5, 73], PoolReturn 0 7],
        [7], False, Some 0, Some 7, False)"
  by code_simp

subsection \<open>The statistics\<close>

text \<open>
  A round that forwards the query to a backend: its trace, cut down to the lock, the
  counter and the sends to the backend, is exactly lock, one increment, unlock, one send,
  and the counter map has changed in the one entry of the node name in use.
\<close>

lemma handleQuery_relayed:
  assumes hq: "handleQuery c p s w message len = (out, evs, p', s', w')"
    and sent: "SendBackend b m \<in> set evs"
  shows "filter relayEvent evs = [Lock, StatsIncrement (nodeName s'), Unlock, SendBackend b m]
       \<and> m = take (nat len) message \<and> backend s' = Some b
       \<and> Stats p' = increment (Stats p) (nodeName s')
       \<and> (\<exists>pl. cp s' = Some pl \<and>
            nodeName s' = (if needsBackend (annotate (getAnnotations c message) s)
                           then Name (pools p pl) else nodeName s))"
proof -
  let ?s1 = "annotate (getAnnotations c message) s"
  obtain out1 evs1 p2 s2 where sel: "selectBackend p ?s1 = (out1, evs1, p2, s2)"
    by (cases "selectBackend p ?s1")
  show ?thesis
  proof (cases "out1 = Continue")
    case False
    with sel hq have "evs = evs1" by (simp add: handleQuery_def Let_def)
    with selectBackend_blocked [OF sel False] sent show ?thesis by simp
  next
    case True
    note sb = selectBackend_result [OF sel [unfolded True]]
    show ?thesis
    proof (cases "backend s2")
      case None
      with sel True hq have "evs = evs1 @ [Lock, StatsIncrement (nodeName s2), Unlock]"
        by (auto simp: handleQuery_def Let_def updateStats_def)
      with sb(2) sent show ?thesis by auto
    next
      case (Some b')
      obtain out3 evs3 rest where dr: "drain c (w b') = (out3, evs3, rest)"
        by (cases "drain c (w b')")
      obtain out4 evs4 p4 s4 where rl:
        "release (snd (updateStats p2 s2)) s2 = (out4, evs4, p4, s4)"
        by (cases "release (snd (updateStats p2 s2)) s2")
      note f3 = drain_filter_relay [OF dr] drain_events [OF dr]
      note r4 = release_events [OF rl] release_keeps [OF rl]
      have cps: "\<exists>pl. cp s2 = Some pl \<and>
            nodeName s2 = (if needsBackend ?s1 then Name (pools p pl) else nodeName s)"
      proof (cases "needsBackend ?s1")
        case True
        with sb(4) show ?thesis by auto
      next
        case False
        with sb(5) have e2: "s2 = ?s1" by simp
        from False obtain pl where "cp ?s1 = Some pl" by (auto simp: needsBackend_def)
        with e2 False show ?thesis by (simp add: annotate_keeps)
      qed
      show ?thesis
      proof (cases "out3 = Continue")
        case True
        with sel \<open>out1 = Continue\<close> Some dr rl hq
        have e: "evs = evs1 @ [Lock, StatsIncrement (nodeName s2), Unlock] @
                   [SendBackend b' (take (nat len) message)] @ evs3 @ evs4"
          and p': "p' = p4" and s': "s' = s4"
          by (auto simp: handleQuery_def Let_def updateStats_def)
        from e sent sb(2) f3(2) r4(1) have bm: "b = b' \<and> m = take (nat len) message" by auto
        from r4(1) have f4: "filter relayEvent evs4 = []" by auto
        from e bm sb(1) f3(1) f4 r4(2) Some sb(3) cps p' s' show ?thesis
          by (simp add: updateStats_def)
      next
        case False
        with sel \<open>out1 = Continue\<close> Some dr hq
        have e: "evs = evs1 @ [Lock, StatsIncrement (nodeName s2), Unlock] @
                   [SendBackend b' (take (nat len) message)] @ evs3"
          and p': "p' = snd (updateStats p2 s2)" and s': "s' = s2"
          by (auto simp: handleQuery_def Let_def updateStats_def)
        from e sent sb(2) f3(2) have bm: "b = b' \<and> m = take (nat len) message" by auto
        from e bm sb(1) f3(1) Some sb(3) cps p' s' show ?thesis
          by (simp add: updateStats_def)
      qed
    qed
  qed
qed

lemma serve_not_query:
  assumes "GetMessageType c (fst (Receive r)) \<noteq> QueryMessageType c"
  shows "\<exists>out. serve c p s w [r] = (out, [], p, s)"
  using assms by (cases r) (auto simp: Receive_def Let_def)

text \<open>
  Claim C6. If a round for a query frame forwards the frame to a backend \<open>b\<close>, then in
  its trace the lock is taken, the counter of the session's node name is incremented
  once, the lock is released, and only then the frame (the first \<open>len\<close> bytes of the
  buffer) is sent to \<open>b\<close>; there is no other increment and no other send to a backend.
  The counter map after the round is the one before with that one entry raised by 1 (a
  missing entry counting as 0; the counter is an \<^verbatim>\<open>int32\<close> and the addition is the
  machine's). The node name is the name of the pool selected in this round if the
  selector was called, and the session's earlier one otherwise. A frame that is not a
  query (a terminate frame among them) leaves the proxy, with its counters, as it was
  and has an empty trace. The authentication frames are read by the authentication
  exchange, which is not handed the proxy.
\<close>

theorem stats_incremented_once_per_relayed_query:
  "(handleQuery c p s w message len = (out, evs, p', s', w') \<and> SendBackend b m \<in> set evs \<longrightarrow>
      filter relayEvent evs = [Lock, StatsIncrement (nodeName s'), Unlock, SendBackend b m]
      \<and> m = take (nat len) message \<and> backend s' = Some b
      \<and> Stats p' = (Stats p)(nodeName s' \<mapsto>
                      (case Stats p (nodeName s') of None \<Rightarrow> 0 | Some v \<Rightarrow> v) + 1)
      \<and> (\<exists>pl. cp s' = Some pl \<and>
            nodeName s' = (if acquires evs then Name (pools p pl) else nodeName s)))
   \<and> (GetMessageType c (fst (Receive r)) \<noteq> QueryMessageType c \<longrightarrow>
        (\<exists>out. serve c p s w [r] = (out, [], p, s)))"
proof (rule conjI)
  show "handleQuery c p s w message len = (out, evs, p', s', w') \<and> SendBackend b m \<in> set evs \<longrightarrow>
      filter relayEvent evs = [Lock, StatsIncrement (nodeName s'), Unlock, SendBackend b m]
      \<and> m = take (nat len) message \<and> backend s' = Some b
      \<and> Stats p' = (Stats p)(nodeName s' \<mapsto>
                      (case Stats p (nodeName s') of None \<Rightarrow> 0 | Some v \<Rightarrow> v) + 1)
      \<and> (\<exists>pl. cp s' = Some pl \<and>
            nodeName s' = (if acquires evs then Name (pools p pl) else nodeName s))"
  proof (rule impI)
    assume "handleQuery c p s w message len = (out, evs, p', s', w') \<and> SendBackend b m \<in> set evs"
    then have hq: "handleQuery c p s w message len = (out, evs, p', s', w')"
      and sent: "SendBackend b m \<in> set evs" by simp_all
    have acq: "acquires evs \<longleftrightarrow> needsBackend (annotate (getAnnotations c message) s)"
      using handleQuery_acquires [of c p s w message len] hq by simp
    from handleQuery_relayed [OF hq sent] acq
    show "filter relayEvent evs = [Lock, StatsIncrement (nodeName s'), Unlock, SendBackend b m]
        \<and> m = take (nat len) message \<and> backend s' = Some b
        \<and> Stats p' = (Stats p)(nodeName s' \<mapsto>
                        (case Stats p (nodeName s') of None \<Rightarrow> 0 | Some v \<Rightarrow> v) + 1)
        \<and> (\<exists>pl. cp s' = Some pl \<and>
              nodeName s' = (if acquires evs then Name (pools p pl) else nodeName s))"
      by (simp add: increment_def)
  qed
next
  show "GetMessageType c (fst (Receive r)) \<noteq> QueryMessageType c \<longrightarrow>
        (\<exists>out. serve c p s w [r] = (out, [], p, s))"
    using serve_not_query [of c r p s w] by blast
qed

theorem stats_incremented_once_per_relayed_query_witness:
  "SendBackend 7 plainQuery \<in> set (fst (snd (handleQuery pgCodec demoProxy newSession demoWorld
        (fst (Receive (plainQuery, None))) 6)))
   \<and> filter relayEvent (fst (snd (handleQuery pgCodec demoProxy newSession demoWorld
        (fst (Receive (plainQuery, None))) 6)))
       = [Lock, StatsIncrement ''master'', Unlock, SendBackend 7 plainQuery]
   \<and> Stats (fst (snd (snd (handleQuery pgCodec demoProxy newSession demoWorld
        (fst (Receive (plainQuery, None))) 6)))) ''master'' = Some 1
   \<and> GetMessageType pgCodec (fst (Receive ([88, 0, 0, 0, 4], None))) \<noteq> QueryMessageType pgCodec
   \<and> fst (snd (serve pgCodec demoProxy newSession demoWorld [([88, 0, 0, 0, 4], None)])) = []"
proof -
  let ?r = "handleQuery pgCodec demoProxy newSession demoWorld (fst (Receive (plainQuery, None))) 6"
  obtain out evs p' s' w' where hq: "?r = (out, evs, p', s', w')" by (cases ?r)
  from pg_plain_round hq have evs: "evs = [GetPool False, PoolNext 0, ReturnPool 0 False, Lock,
        StatsIncrement ''master'', Unlock, SendBackend 7 plainQuery,
        SendClient [90, 0, 0, 0, 5, 73], PoolReturn 0 7]" by simp
  then have sent: "SendBackend 7 plainQuery \<in> set evs" by simp
  have nq: "GetMessageType pgCodec (fst (Receive ([88, 0, 0, 0, 4], None))) \<noteq> QueryMessageType pgCodec"
    by (simp add: Receive_def pgCodec_def)
  note th = stats_incremented_once_per_relayed_query
    [of pgCodec demoProxy newSession demoWorld "fst (Receive (plainQuery, None))" 6
        out evs p' s' w' 7 plainQuery "([88, 0, 0, 0, 4], None)"]
  from th hq sent have
    f: "filter relayEvent evs = [Lock, StatsIncrement (nodeName s'), Unlock, SendBackend 7 plainQuery]"
    and st: "Stats p' = (Stats demoProxy)(nodeName s' \<mapsto>
                      (case Stats demoProxy (nodeName s') of None \<Rightarrow> 0 | Some v \<Rightarrow> v) + 1)"
    by blast+
  from f evs have nn: "nodeName s' = ''master''" by simp
  from st nn have s1: "Stats p' ''master'' = Some 1" by (simp add: demoProxy_def)
  from th nq obtain out2 where
    "serve pgCodec demoProxy newSession demoWorld [([88, 0, 0, 0, 4], None)]
       = (out2, [], demoProxy, newSession)" by blast
  then have e2: "fst (snd (serve pgCodec demoProxy newSession demoWorld [([88, 0, 0, 0, 4], None)])) = []"
    by simp
  from hq sent f nn s1 nq e2 show ?thesis by simp
qed

subsection \<open>The backend after a release\<close>

lemma release_outside_block:
  assumes "release p s = (Continue, evs, p', s')" and "\<not> statementBlock s"
  shows "\<exists>pl b. cp s' = Some pl \<and> backend s' = Some b \<and> cp s = Some pl \<and> backend s = Some b
           \<and> evs = [PoolReturn pl b]
           \<and> connections (pools p' pl) = connections (pools p pl) @ [b]
           \<and> \<not> endBlock s' \<and> \<not> statementBlock s'"
  using assms
  by (auto simp: release_def Return_def Let_def split: if_splits option.splits)

text \<open>
  What lines 312-323 do after a round that ends outside a block: the backend the query
  was sent to is given back to the session's pool, as the last step of the round and at
  the end of the pool's free set, and the end flag is reset. The session's pool and
  backend stay as they were, and a following query without start or end annotation
  calls the selector.
\<close>

lemma backend_released_outside_block:
  assumes hq: "handleQuery c p s w message len = (Continue, evs, p', s', w')"
    and nb: "\<not> statementBlock s'"
  shows "\<exists>pl b. cp s' = Some pl \<and> backend s' = Some b
           \<and> SendBackend b (take (nat len) message) \<in> set evs
           \<and> evs \<noteq> [] \<and> last evs = PoolReturn pl b
           \<and> connections (pools p' pl) \<noteq> [] \<and> last (connections (pools p' pl)) = b
           \<and> \<not> endBlock s'
           \<and> (\<forall>message2 len2.
                  \<not> getAnnotations c message2 StartAnnotation \<and>
                  \<not> getAnnotations c message2 EndAnnotation \<longrightarrow>
                  acquires (fst (snd (handleQuery c p' s' w' message2 len2))))"
proof -
  let ?s1 = "annotate (getAnnotations c message) s"
  obtain out1 evs1 p2 s2 where sel: "selectBackend p ?s1 = (out1, evs1, p2, s2)"
    by (cases "selectBackend p ?s1")
  from hq sel have r: "out1 = Continue"
    by (cases "out1 = Continue") (auto simp: handleQuery_def Let_def)
  from hq sel r obtain b where b: "backend s2 = Some b"
    by (cases "backend s2") (auto simp: handleQuery_def Let_def updateStats_def)
  obtain out3 evs3 rest where dr: "drain c (w b) = (out3, evs3, rest)" by (cases "drain c (w b)")
  obtain out4 evs4 p4 s4 where rl:
    "release (snd (updateStats p2 s2)) s2 = (out4, evs4, p4, s4)"
    by (cases "release (snd (updateStats p2 s2)) s2")
  from hq sel r b dr rl have o3: "out3 = Continue"
    by (auto simp: handleQuery_def Let_def updateStats_def split: if_splits)
  with hq sel r b dr rl
  have e: "evs = evs1 @ [Lock, StatsIncrement (nodeName s2), Unlock] @
                   [SendBackend b (take (nat len) message)] @ evs3 @ evs4"
    and p': "p' = p4" and s': "s' = s4" and o4: "out4 = Continue"
    by (auto simp: handleQuery_def Let_def updateStats_def)
  from release_keeps [OF rl] nb s' have nb2: "\<not> statementBlock s2" by simp
  from release_outside_block [OF rl [unfolded o4] nb2] b
  obtain pl where k: "cp s4 = Some pl" "backend s4 = Some b" "evs4 = [PoolReturn pl b]"
    "connections (pools p4 pl) = connections (pools (snd (updateStats p2 s2)) pl) @ [b]"
    "\<not> endBlock s4" "\<not> statementBlock s4"
    by auto
  have nxt: "acquires (fst (snd (handleQuery c p' s' w' message2 len2)))"
    if "\<not> getAnnotations c message2 StartAnnotation \<and> \<not> getAnnotations c message2 EndAnnotation"
    for message2 len2
    unfolding handleQuery_acquires using that k(5,6) s'
    by (simp add: needsBackend_def annotate_def Let_def)
  from e k p' s' nxt show ?thesis by auto
qed

text \<open>
  Claim C3 says that after a query outside a block the pin is cleared, so that no backend
  is held while no block is open. The code gives the connection back
  (\<^verbatim>\<open>cp.Return(backend)\<close>) and assigns neither \<^verbatim>\<open>cp\<close> nor \<^verbatim>\<open>backend\<close>. First run: after one
  query without annotation on a new session the in-block flag is false, connection 7 is
  back in the free set of pool 0, and the session still holds pool 0 and connection 7.
  Second run, the queries plain, begin, end: the flags are set (lines 240-245) before the
  condition of line 253 is tested, so for the begin query and for the end query the
  selector is not called; both go to connection 7 while it is in the free set, against
  the comment of lines 313-316 that a new connection will be fetched on the next query;
  and the release after the end query puts connection 7 into the free set a second time.
\<close>

theorem pin_kept_and_backend_reused:
  "(case handleQuery pgCodec demoProxy newSession demoWorld (fst (Receive (plainQuery, None))) 6 of
      (out, evs, p', s', w') \<Rightarrow>
        (out, statementBlock s', cp s', backend s', connections (pools p' 0)))
     = (Continue, False, Some 0, Some 7, [7])
   \<and> (case serve pgCodec demoProxy newSession demoWorld
           [(plainQuery, None), (beginQuery, None), (endQuery, None)] of
      (out, evs, p', s') \<Rightarrow>
        (out, evs, connections (pools p' 0), statementBlock s', cp s', backend s'))
     = (Blocked,
        [GetPool False, PoolNext 0, ReturnPool 0 False,
         Lock, StatsIncrement ''master'', Unlock, SendBackend 7 plainQuery,
         SendClient [90, 0, 0, 0, 5, 73], PoolReturn 0 7,
         Lock, StatsIncrement ''master'', Unlock, SendBackend 7 beginQuery,
         SendClient [90, 0, 0, 0, 5, 73],
         Lock, StatsIncrement ''master'', Unlock, SendBackend 7 endQuery,
         SendClient [90, 0, 0, 0, 5, 73], PoolReturn 0 7],
        [7, 7], False, Some 0, Some 7)"
proof (rule conjI)
  show "(case handleQuery pgCodec demoProxy newSession demoWorld
                (fst (Receive (plainQuery, None))) 6 of
      (out, evs, p', s', w') \<Rightarrow>
        (out, statementBlock s', cp s', backend s', connections (pools p' 0)))
     = (Continue, False, Some 0, Some 7, [7])"
    using pg_plain_round by (simp add: case_prod_beta)
qed code_simp

section \<open>Properties of accepting a client\<close>

text \<open>
  No round of the serving loop performs a server handshake: the events of a query round
  are those of the selection, the statistics, the relay and the release.
\<close>

lemma selectBackend_no_handshake:
  "selectBackend p s = (out, evs, p', s') \<Longrightarrow> ServerHandshake \<notin> set evs"
  by (auto simp: selectBackend_def Let_def split: if_splits option.splits)

lemma handleQuery_no_handshake:
  assumes "handleQuery c p s w message len = (out, evs, p', s', w')"
  shows "ServerHandshake \<notin> set evs"
proof -
  let ?s1 = "annotate (getAnnotations c message) s"
  obtain out1 evs1 p2 s2 where sel: "selectBackend p ?s1 = (out1, evs1, p2, s2)"
    by (cases "selectBackend p ?s1")
  note n1 = selectBackend_no_handshake [OF sel]
  show ?thesis
  proof (cases "out1 = Continue")
    case False
    with sel assms n1 show ?thesis by (simp add: handleQuery_def Let_def)
  next
    case True
    show ?thesis
    proof (cases "backend s2")
      case None
      with sel True assms n1 show ?thesis
        by (auto simp: handleQuery_def Let_def updateStats_def)
    next
      case (Some b)
      obtain out3 evs3 rest where dr: "drain c (w b) = (out3, evs3, rest)"
        by (cases "drain c (w b)")
      obtain out4 evs4 p4 s4 where rl:
        "release (snd (updateStats p2 s2)) s2 = (out4, evs4, p4, s4)"
        by (cases "release (snd (updateStats p2 s2)) s2")
      have n3: "ServerHandshake \<notin> set evs3" using drain_events [OF dr] by auto
      have n4: "ServerHandshake \<notin> set evs4" using release_events [OF rl] by auto
      from sel True Some dr rl assms n1 n3 n4 show ?thesis
        by (auto simp: handleQuery_def Let_def updateStats_def split: if_splits)
    qed
  qed
qed

lemma serve_no_handshake:
  "serve c p s w rs = (out, evs, p', s') \<Longrightarrow> ServerHandshake \<notin> set evs"
proof (induction rs arbitrary: p s w out evs p' s')
  case Nil
  then show ?case by simp
next
  case (Cons r rs)
  obtain message len err where rc: "Receive r = (message, len, err)" by (cases "Receive r")
  obtain o1 e1 p1 s1 w1 where hq: "handleQuery c p s w message len = (o1, e1, p1, s1, w1)"
    by (cases "handleQuery c p s w message len")
  obtain o2 e2 p2 s2 where sv: "serve c p1 s1 w1 rs = (o2, e2, p2, s2)"
    by (cases "serve c p1 s1 w1 rs")
  note n1 = handleQuery_no_handshake [OF hq]
  note n2 = Cons.IH [OF sv]
  from Cons.prems rc hq sv n1 n2 Cons.IH [of p s w out evs p' s'] show ?case
    by (auto simp: Let_def split: if_splits)
qed

text \<open>
  Claim C8. Let the version of the client's first frame be the upgrade-request code, let
  the proxy's SSL flag be disabled, and let the client's next read not be end of stream.
  Then the startup phase sends the one refusal byte and nothing else, and hands on the
  frame of the second read, exactly as read, on a connection that is not encrypted. The
  handler then processes that frame: if the frame does not validate, it sends the
  invalid-authorization error and returns; otherwise it runs the authentication exchange
  on the frame and, according to the result, returns, faults (false with a nil error) or
  enters the serving loop on what the client sends after the exchange, whose trace
  follows the refusal byte. The session runs to its end on the connection that is not
  encrypted, and no server handshake occurs anywhere in its trace. (Whether the upgrade
  function, which line 155 calls in either case, performs a handshake is decided in a
  file that is not among the sources; it is modelled from the spec.)
\<close>

theorem ssl_request_refused_when_disabled:
  assumes "GetVersion c (fst (Receive r1)) = SSLRequestCode c" and "snd r2 \<noteq> Some EOF"
  shows "awaitStartup c False (r1 # r2 # rs)
           = StartupFrame [SendClient [SSLNotAllowed c]] False
               (fst (Receive r2)) (fst (snd (Receive r2))) rs
       \<and> HandleConnection c False p w (r1 # r2 # rs)
           = (let message = fst (Receive r2); len = fst (snd (Receive r2));
                  refusal = SendClient [SSLNotAllowed c]
              in if \<not> ValidateClient c message
                 then (Returned, [refusal, SendClient (invalidAuthorizationMessage c)],
                       p, newSession, False)
                 else
                   (case AuthenticateClient c message len rs of (authenticated, err, rs') \<Rightarrow>
                      if err = Some EOF then (Returned, [refusal], p, newSession, False)
                      else if \<not> authenticated then
                        ((if err = None then Panicked NilDereference else Returned),
                         [refusal], p, newSession, False)
                      else
                        (case serve c p newSession w rs' of (out, evs, p', s') \<Rightarrow>
                           (out, refusal # evs, p', s', False))))
       \<and> ServerHandshake \<notin> set (fst (snd (HandleConnection c False p w (r1 # r2 # rs))))"
proof -
  let ?m = "fst (Receive r2)" and ?n = "fst (snd (Receive r2))"
  have r2: "snd (snd (Receive r2)) \<noteq> Some EOF" using assms(2) by (simp add: Receive_def Let_def)
  have aw: "awaitStartup c False (r1 # r2 # rs)
           = StartupFrame [SendClient [SSLNotAllowed c]] False ?m ?n rs"
    using assms(1) r2
    by (simp add: awaitStartup_def UpgradeServerConnection_def Let_def case_prod_beta)
  have hc: "HandleConnection c False p w (r1 # r2 # rs)
           = (let message = ?m; len = ?n; refusal = SendClient [SSLNotAllowed c]
              in if \<not> ValidateClient c message
                 then (Returned, [refusal, SendClient (invalidAuthorizationMessage c)],
                       p, newSession, False)
                 else
                   (case AuthenticateClient c message len rs of (authenticated, err, rs') \<Rightarrow>
                      if err = Some EOF then (Returned, [refusal], p, newSession, False)
                      else if \<not> authenticated then
                        ((if err = None then Panicked NilDereference else Returned),
                         [refusal], p, newSession, False)
                      else
                        (case serve c p newSession w rs' of (out, evs, p', s') \<Rightarrow>
                           (out, refusal # evs, p', s', False))))"
    by (auto simp: HandleConnection_def aw admit_def Let_def split: prod.splits option.splits)
  have nh: "ServerHandshake \<notin> set (fst (snd (HandleConnection c False p w (r1 # r2 # rs))))"
  proof -
    obtain a e rs' where au: "AuthenticateClient c ?m ?n rs = (a, e, rs')"
      by (cases "AuthenticateClient c ?m ?n rs")
    obtain out evs p' s' where sv: "serve c p newSession w rs' = (out, evs, p', s')"
      by (cases "serve c p newSession w rs'")
    from serve_no_handshake [OF sv] au sv show ?thesis
      unfolding hc by (auto simp: Let_def)
  qed
  from aw hc nh show ?thesis by (intro conjI)
qed

lemma pg_serve_plain:
  "fst (snd (serve pgCodec demoProxy newSession demoWorld [(plainQuery, None)]))
     = [GetPool False, PoolNext 0, ReturnPool 0 False, Lock, StatsIncrement ''master'', Unlock,
        SendBackend 7 plainQuery, SendClient [90, 0, 0, 0, 5, 73], PoolReturn 0 7]"
  by code_simp

theorem ssl_request_refused_when_disabled_witness:
  "GetVersion pgCodec (fst (Receive (sslRequestMessage pgCodec, None))) = SSLRequestCode pgCodec
   \<and> awaitStartup pgCodec False
        [(sslRequestMessage pgCodec, None), (startupMessage pgCodec, None), (plainQuery, None)]
       = StartupFrame [SendClient [78]] False (fst (Receive (startupMessage pgCodec, None))) 8
           [(plainQuery, None)]
   \<and> fst (snd (HandleConnection pgCodec False demoProxy demoWorld
        [(sslRequestMessage pgCodec, None), (startupMessage pgCodec, None), (plainQuery, None)]))
       = [SendClient [78],
          GetPool False, PoolNext 0, ReturnPool 0 False, Lock, StatsIncrement ''master'', Unlock,
          SendBackend 7 plainQuery, SendClient [90, 0, 0, 0, 5, 73], PoolReturn 0 7]
   \<and> snd (snd (snd (snd (HandleConnection pgCodec False demoProxy demoWorld
        [(sslRequestMessage pgCodec, None), (startupMessage pgCodec, None), (plainQuery, None)]))))
       = False"
proof -
  let ?rs = "[(plainQuery, None :: error option)]"
  have h1: "GetVersion pgCodec (fst (Receive (sslRequestMessage pgCodec, None))) = SSLRequestCode pgCodec"
    by (simp add: Receive_def pgCodec_def be32_def)
  have h2: "snd (startupMessage pgCodec, None :: error option) \<noteq> Some EOF" by simp
  have l: "fst (snd (Receive (startupMessage pgCodec, None))) = 8"
    by (simp add: Receive_def pgCodec_def)
  have n: "SSLNotAllowed pgCodec = 78" by (simp add: pgCodec_def)
  have v: "ValidateClient pgCodec m" for m by (simp add: pgCodec_def)
  have a: "AuthenticateClient pgCodec m k rs = (True, None, rs)" for m k rs
    by (simp add: pgCodec_def)
  note th = ssl_request_refused_when_disabled [OF h1 h2, of ?rs demoProxy demoWorld]
  from th have t1: "awaitStartup pgCodec False
        [(sslRequestMessage pgCodec, None), (startupMessage pgCodec, None), (plainQuery, None)]
       = StartupFrame [SendClient [78]] False (fst (Receive (startupMessage pgCodec, None))) 8 ?rs"
    unfolding l n by (rule conjunct1)
  from th have "HandleConnection pgCodec False demoProxy demoWorld
        [(sslRequestMessage pgCodec, None), (startupMessage pgCodec, None), (plainQuery, None)]
      = (case serve pgCodec demoProxy newSession demoWorld ?rs of (out, evs, p', s') \<Rightarrow>
           (out, SendClient [78] # evs, p', s', False))"
    by (simp add: Let_def v a n)
  then have t2: "fst (snd (HandleConnection pgCodec False demoProxy demoWorld
        [(sslRequestMessage pgCodec, None), (startupMessage pgCodec, None), (plainQuery, None)]))
       = [SendClient [78],
          GetPool False, PoolNext 0, ReturnPool 0 False, Lock, StatsIncrement ''master'', Unlock,
          SendBackend 7 plainQuery, SendClient [90, 0, 0, 0, 5, 73], PoolReturn 0 7]"
    and t3: "snd (snd (snd (snd (HandleConnection pgCodec False demoProxy demoWorld
        [(sslRequestMessage pgCodec, None), (startupMessage pgCodec, None), (plainQuery, None)]))))
       = False"
    using pg_serve_plain by (simp_all add: case_prod_beta del: serve.simps)
  from h1 t1 t2 t3 show ?thesis by (intro conjI)
qed

text \<open>
  Claim C10. On the path where the startup frame is valid and the authentication exchange
  returns \<open>authenticated = false\<close> with an error that is not end of stream, the handler
  faults (a nil dereference at \<^verbatim>\<open>err.Error()\<close>, line 197) exactly when that error is nil;
  with a non-nil error it returns, having sent nothing more and leaving the proxy as it
  was. So the path is safe only if the exchange never returns false together with nil.
\<close>

theorem auth_failure_faults_iff_nil_error:
  assumes "awaitStartup c sslEnable client = StartupFrame evs enc message len rs"
    and "ValidateClient c message"
    and "AuthenticateClient c message len rs = (False, err, rs')"
    and "err \<noteq> Some EOF"
  shows "HandleConnection c sslEnable p w client
           = ((if err = None then Panicked NilDereference else Returned), evs, p, newSession, enc)"
  using assms by (auto simp: HandleConnection_def admit_def split: option.splits)

lemma pg_startup:
  "awaitStartup (failingAuth err) False [(startupMessage pgCodec, None)]
     = StartupFrame [] False (fst (Receive (startupMessage pgCodec, None))) 8 []"
  by (simp add: awaitStartup_def Receive_def failingAuth_def pgCodec_def be32_def Let_def)

theorem auth_failure_faults_iff_nil_error_witness:
  "HandleConnection (failingAuth None) False demoProxy demoWorld [(startupMessage pgCodec, None)]
     = (Panicked NilDereference, [], demoProxy, newSession, False)
   \<and> HandleConnection (failingAuth (Some NetError)) False demoProxy demoWorld
        [(startupMessage pgCodec, None)]
     = (Returned, [], demoProxy, newSession, False)"
proof -
  have v: "ValidateClient (failingAuth err) m" for err m
    by (simp add: failingAuth_def pgCodec_def)
  have a: "AuthenticateClient (failingAuth err) m n rs = (False, err, rs)" for err m n rs
    by (simp add: failingAuth_def)
  have n1: "(None :: error option) \<noteq> Some EOF" by simp
  have n2: "Some NetError \<noteq> Some EOF" by simp
  from auth_failure_faults_iff_nil_error [OF pg_startup v a n1, of demoProxy demoWorld]
       auth_failure_faults_iff_nil_error [OF pg_startup v a n2, of demoProxy demoWorld]
  show ?thesis by simp
qed

section \<open>Properties of dialling and seeding\<close>

text \<open>
  With the flag enabled, the dial and the probe's write and read without error, and a
  first response byte other than \<open>S\<close> (83): the connection is closed, no handshake is
  attempted, and the error returned is nil.
\<close>

lemma Connect_refused:
  assumes "dial d = Inr k" and "probeWrite d = None" and "snd (probeRead d) = None"
    and "fst (Receive (probeRead d)) ! 0 \<noteq> 83"
  shows "Connect c True d
           = (Some \<lparr>ident = k, closed = True, encrypted = False\<rparr>, None,
              [SendBackend k (sslRequestMessage c), CloseBackend k])"
  using assms by (simp add: Connect_def Receive_def Let_def)

text \<open>
  Claim C4 says that after a byte other than the acceptance marker \<^verbatim>\<open>Connect\<close> closes the
  connection and reports failure. The code closes it and does not go on to the upgrade,
  but it then falls through to \<^verbatim>\<open>return connection, nil\<close>: with the flag enabled and the
  backend answering \<open>N\<close> (78), the caller gets the closed connection and a nil error.
\<close>

theorem refused_probe_returns_no_error:
  "Connect pgCodec True \<lparr>dial = Inr 3, probeWrite = None, probeRead = ([78], None)\<rparr>
     = (Some \<lparr>ident = 3, closed = True, encrypted = False\<rparr>, None,
        [SendBackend 3 [0, 0, 0, 8, 4, 210, 22, 47], CloseBackend 3])"
  by (simp add: Connect_def Receive_def pgCodec_def Let_def)

text \<open>
  The result of \<^verbatim>\<open>HandleAuthenticationRequest\<close> is logged (lines 88-90) and not used
  again: what decides \<^verbatim>\<open>newPool.Add\<close> is the error of \<^verbatim>\<open>Connect\<close> alone.
\<close>

lemma seedConnection_ignores_authentication:
  "seedConnection c sslEnable newPool (a\<lparr>authenticate := f\<rparr>) = seedConnection c sslEnable newPool a"
  by (simp add: seedConnection_def Let_def split: prod.split option.split)

text \<open>On a backend that never answers the startup message, the seeding waits at line 84.\<close>

lemma seedConnection_waits:
  "startupRead a = None \<Longrightarrow> Connect c sslEnable (dialing a) = (Some cn, err, evs) \<Longrightarrow>
   seedConnection c sslEnable newPool a
     = (Blocked, evs @ [SendBackend (ident cn) (startupMessage c)], newPool)"
  by (simp add: seedConnection_def Let_def)

text \<open>
  Claim C7 says that a seed connection is added to its pool only if its authentication
  succeeded. Here the dial succeeds (SSL disabled), the backend answers the startup
  message with an authentication request, and the authentication fails: the connection is
  added all the same, and the pool of the one node holds it after \<^verbatim>\<open>setupPools\<close>.
\<close>

theorem unauthenticated_connection_added:
  "seedConnection pgCodec False (NewPool ''master'')
        \<lparr>dialing = \<lparr>dial = Inr 3, probeWrite = None, probeRead = ([], None)\<rparr>,
         startupRead = Some ([82, 0, 0, 0, 8, 0, 0, 0, 3], None),
         authenticate = (\<lambda>response. False)\<rparr>
     = (Continue, [SendBackend 3 [0, 0, 0, 8, 0, 3, 0, 0]],
        \<lparr>Name = ''master'', connections = [3]\<rparr>)
   \<and> (case setupPools pgCodec False 1
          (\<lambda>name i. \<lparr>dialing = \<lparr>dial = Inr 3, probeWrite = None, probeRead = ([], None)\<rparr>,
                      startupRead = Some ([82, 0, 0, 0, 8, 0, 0, 0, 3], None),
                      authenticate = (\<lambda>response. False)\<rparr>)
          [(''master'', NODE_ROLE_MASTER)] of
        (out, evs, p) \<Rightarrow> (out, writePools p, readPools p, connections (pools p 0)))
     = (Continue, [0], [], [3])"
  by (simp add: seedConnection_def setupPools_def Connect_def Receive_def NewPool_def Add_def
      pgCodec_def Let_def)

end
